theory Spec2Isabelle
  imports Complex_Main "HOL-Library.Word"
begin

section \<open>The video exporter of the audio visualizer\<close>

text \<open>
  This theory embeds the two \<^verbatim>\<open>VideoExporter\<close> components of the repository:
  the exporter that takes only \<^verbatim>\<open>VisualizerSettings\<close> (functions \<open>setupCanvas\<close>,
  \<open>captureFrames\<close>, \<open>exportVideo\<close>) and the later one that also takes
  \<^verbatim>\<open>ExportSettings\<close> (the same names with the suffix \<open>_es\<close>).

  Conventions of the embedding.
  \<^item> A JavaScript \<^verbatim>\<open>number\<close> is the \<^typ>\<open>real\<close> it denotes. The two computations that end
    in a whole number, the frame count and the progress value, round every product and
    quotient to an IEEE double (\<open>mulD\<close>, \<open>divD\<close>), as the code does; the coordinates and
    colour channels of the drawing, which are only passed on to the canvas, are kept
    exact. \<^verbatim>\<open>Math.ceil\<close> is \<open>\<lceil>_\<rceil>\<close>, \<^verbatim>\<open>Math.round\<close> (halves go up) is \<open>\<lfloor>x + 1/2\<rfloor>\<close>.
  \<^item> A \<^verbatim>\<open>Uint8Array\<close> is a list of \<^typ>\<open>8 word\<close>.
  \<^item> The browser and the encoder are not part of the repository. What they answer is
    read from a record \<open>world\<close>; what the exporter asks of them and what it reports to
    its caller is written, in order, to a list of events.
  \<^item> An awaited call returns, throws (its promise is rejected) or never settles: the
    three cases of the type \<open>step\<close>.
  \<^item> \<open>exportVideo\<close> is entered from \<open>load\<close>, which has stored a fresh \<^verbatim>\<open>FFmpeg\<close> instance
    in \<open>ffmpegRef\<close> before: the guards \<^verbatim>\<open>if (!ffmpegRef.current) return\<close> are passed and
    the encoder's file system is empty when the run starts.
  \<^item> Calls that no property below speaks about (creating the canvas and the audio nodes,
    \<^verbatim>\<open>source.start()\<close>, \<^verbatim>\<open>source.stop()\<close>, closing the audio context, \<^verbatim>\<open>console.error\<close>)
    are not recorded.
\<close>

subsection \<open>Settings\<close>

datatype colorScheme =
  greenRed | bluePurple | rainbow | white | purpleGold | oceanBlue | sunset | neon

datatype barPosition = Bottom | Top

datatype shape = rectangle | rounded | pill | triangle

record VisualizerSettings =
  barSpacing :: real
  barHeight :: real
  colorScheme :: colorScheme
  position :: barPosition
  shape :: shape
  glow :: bool

text \<open>
  Modelled from the spec: the declaration of \<^verbatim>\<open>ExportSettings\<close> (imported from
  \<^verbatim>\<open>@/app/page\<close>) is not among the sources. The exporter compares \<open>resolution\<close> with
  \<^verbatim>\<open>'1080p'\<close>, \<open>format\<close> with \<^verbatim>\<open>'webm'\<close>, indexes a table by \<open>quality\<close> and prints \<open>fps\<close>.
\<close>

datatype resolution = R720p | R1080p

datatype format = mp4 | webm

datatype quality = high | medium | low

record ExportSettings =
  resolution :: resolution
  fps :: nat
  format :: format
  quality :: quality

subsection \<open>IEEE doubles\<close>

text \<open>
  Rounding a real to the nearest double, ties to the even significand. A double is a
  whole multiple of its unit in the last place \<open>2 powi e\<close>, with a significand below
  \<open>2 ^ 53\<close>; \<open>ulpExp x\<close> is that exponent \<open>e\<close> for \<open>x\<close>: the largest \<open>e\<close> between \<open>-1074\<close>
  (subnormal numbers) and \<open>971\<close> (the largest doubles) with \<open>2 powi (e + 52) \<le> \<bar>x\<bar>\<close>, found
  by going down from the top. Results beyond the largest double, which JavaScript turns
  into \<^verbatim>\<open>Infinity\<close>, are not modelled.
\<close>

fun scanExp :: "nat \<Rightarrow> real \<Rightarrow> int" where
  "scanExp 0 a = - 1074"
| "scanExp (Suc n) a = (if 2 powi (int n - 1021) \<le> a then int n - 1073 else scanExp n a)"

definition ulpExp :: "real \<Rightarrow> int" where
  "ulpExp x = scanExp 2045 \<bar>x\<bar>"

text \<open>Rounding to the nearest integer, ties to the even one.\<close>

definition rne :: "real \<Rightarrow> int" where
  "rne y =
     (let f = \<lfloor>y\<rfloor>; r = y - of_int f in
      if r < 1 / 2 then f else if 1 / 2 < r then f + 1 else if even f then f else f + 1)"

definition roundToDouble :: "real \<Rightarrow> real" where
  "roundToDouble x = of_int (rne (x / 2 powi ulpExp x)) * 2 powi ulpExp x"

text \<open>
  The operators \<^verbatim>\<open>*\<close> and \<^verbatim>\<open>/\<close>. Their operands are doubles: an operand given as a real is
  read as the double nearest to it, as a decimal literal is, which changes nothing when it
  is a double already.
\<close>

definition mulD :: "real \<Rightarrow> real \<Rightarrow> real" where
  "mulD x y = roundToDouble (roundToDouble x * roundToDouble y)"

definition divD :: "real \<Rightarrow> real \<Rightarrow> real" where
  "divD x y = roundToDouble (roundToDouble x / roundToDouble y)"

subsection \<open>Strings\<close>

text \<open>\<^verbatim>\<open>Number.prototype.toString\<close> on a non-negative integer: its decimal digits.\<close>

definition digit :: "nat \<Rightarrow> char" where
  "digit d = char_of (48 + d)"

function toString :: "nat \<Rightarrow> string" where
  "toString n = (if n < 10 then [digit n] else toString (n div 10) @ [digit (n mod 10)])"
  by pat_completeness auto
termination
  by (relation "measure id") auto

declare toString.simps [simp del]

text \<open>\<^verbatim>\<open>String.prototype.padStart\<close> with a one-character pad string.\<close>

definition padStart :: "nat \<Rightarrow> char \<Rightarrow> string \<Rightarrow> string" where
  "padStart targetLength c s = replicate (targetLength - length s) c @ s"

text \<open>The template \<^verbatim>\<open>`frame${frame.toString().padStart(6, '0')}.jpg`\<close>.\<close>

definition frameKey :: "nat \<Rightarrow> string" where
  "frameKey frame = ''frame'' @ padStart 6 (CHR ''0'') (toString frame) @ ''.jpg''"




subsection \<open>Colours and canvas operations\<close>

text \<open>
  The colour strings \<^verbatim>\<open>`rgb(${r}, ${g}, ${b})`\<close>, \<^verbatim>\<open>`hsl(${hue}, 100%, 50%)`\<close> and
  \<^verbatim>\<open>`rgba(255, 255, 255, ${a})`\<close>, kept as the numbers that are printed into them.
\<close>

datatype color = Rgb real real real | Hsl real | Rgba real real real real

datatype canvasOp =
    ClearRect real real real real
  | DrawImage real real real real
  | ShadowBlur real
  | ShadowColor color
  | FillStyle color
  | FillRect real real real real
  | RoundRect real real real real "real list"
  | TrianglePath "real \<times> real" "real \<times> real" "real \<times> real"

definition getColorForScheme :: "VisualizerSettings \<Rightarrow> real \<Rightarrow> real \<Rightarrow> color" where
  "getColorForScheme settings height maxHeight =
     (let pos = height / maxHeight in
      case colorScheme settings of
        greenRed \<Rightarrow> Rgb (255 * pos) (255 * (1 - pos)) 0
      | bluePurple \<Rightarrow> Rgb (255 * pos) (100 + (155 * (1 - pos))) 255
      | rainbow \<Rightarrow> Hsl (240 * (1 - pos))
      | purpleGold \<Rightarrow> Rgb (147 + (108 * pos)) (51 + (191 * pos)) (234 - (198 * pos))
      | oceanBlue \<Rightarrow> Rgb (14 + (59 * pos)) (165 + (-35 * pos)) (233 + (13 * pos))
      | sunset \<Rightarrow> Rgb (249 - (13 * pos)) (115 - (43 * pos)) (22 + (131 * pos))
      | neon \<Rightarrow> Rgb (34 + (-14 * pos)) (197 + (-13 * pos)) (94 + (72 * pos))
      | white \<Rightarrow> Rgba 255 255 255 (0.3 + (0.7 * pos)))"

subsection \<open>The constants of \<open>captureFrames\<close>\<close>

text \<open>\<^verbatim>\<open>const fps = 30\<close>, in both exporters.\<close>

definition captureFps :: real where
  "captureFps = 30"

text \<open>\<^verbatim>\<open>totalFrames.current = Math.ceil(duration * fps)\<close>.\<close>

definition totalFrames :: "real \<Rightarrow> int" where
  "totalFrames duration = \<lceil>mulD duration captureFps\<rceil>"

text \<open>\<^verbatim>\<open>analyser.fftSize = 256\<close>, so \<open>frequencyBinCount\<close> is 128.\<close>

definition bufferLength :: nat where
  "bufferLength = 256 div 2"

text \<open>\<^verbatim>\<open>const maxBarHeight = 720 * 0.3; // 30% of height\<close>, in both exporters.\<close>

definition maxBarHeight :: real where
  "maxBarHeight = 720 * 0.3"

definition totalWidth :: real where
  "totalWidth = 1280"

definition barWidth :: "VisualizerSettings \<Rightarrow> real" where
  "barWidth settings =
     (let totalBars = real bufferLength;
          totalSpacing = (totalBars - 1) * barSpacing settings
      in (totalWidth - totalSpacing) / totalBars)"

text \<open>\<^verbatim>\<open>Math.round((frame / totalFrames.current) * 70) + 20\<close>.\<close>

definition mathRound :: "real \<Rightarrow> int" where
  "mathRound x = \<lfloor>x + 1 / 2\<rfloor>"

definition frameProgress :: "nat \<Rightarrow> int \<Rightarrow> int" where
  "frameProgress frame tf = mathRound (mulD (divD (real frame) (real_of_int tf)) 70) + 20"

subsection \<open>Drawing one bar\<close>

text \<open>The body of the inner loop, up to the shape: height, anchor and colour of bar \<open>i\<close>.\<close>

definition barHeightPx :: "VisualizerSettings \<Rightarrow> 8 word list \<Rightarrow> nat \<Rightarrow> real" where
  "barHeightPx settings dataArray i =
     (real (unat (dataArray ! i)) * barHeight settings) * (maxBarHeight / 255)"

definition barY :: "VisualizerSettings \<Rightarrow> real \<Rightarrow> real" where
  "barY settings h = (if position settings = Bottom then 720 - h else 0)"

text \<open>The \<^verbatim>\<open>switch (settings.shape)\<close>: every shape starts at \<open>i * barWidth\<close>.\<close>

definition drawShape :: "VisualizerSettings \<Rightarrow> nat \<Rightarrow> real \<Rightarrow> real \<Rightarrow> canvasOp list" where
  "drawShape settings i y h =
     (let bw = barWidth settings; x = real i * bw in
      case shape settings of
        rectangle \<Rightarrow> [FillRect x y bw h]
      | rounded \<Rightarrow>
          (if position settings = Bottom then [RoundRect x y bw h [4, 4, 0, 0]]
           else [RoundRect x y bw h [0, 0, 4, 4]])
      | pill \<Rightarrow>
          (let radius = bw / 2 in
           if position settings = Bottom then [RoundRect x y bw h [radius, radius, 0, 0]]
           else [RoundRect x y bw h [0, 0, radius, radius]])
      | triangle \<Rightarrow>
          (if position settings = Bottom
           then [TrianglePath (x, 720) (x + bw / 2, 720 - h) (x + bw, 720)]
           else [TrianglePath (x, 0) (x + bw / 2, h) (x + bw, 0)]))"

text \<open>The exporter without export settings sets the fill style and draws.\<close>

definition drawBar :: "VisualizerSettings \<Rightarrow> 8 word list \<Rightarrow> nat \<Rightarrow> canvasOp list" where
  "drawBar settings dataArray i =
     (let h = barHeightPx settings dataArray i;
          y = barY settings h
      in FillStyle (getColorForScheme settings h maxBarHeight) # drawShape settings i y h)"

text \<open>The exporter with export settings also sets the glow.\<close>

definition drawBar_es :: "VisualizerSettings \<Rightarrow> 8 word list \<Rightarrow> nat \<Rightarrow> canvasOp list" where
  "drawBar_es settings dataArray i =
     (let h = barHeightPx settings dataArray i;
          y = barY settings h;
          color = getColorForScheme settings h maxBarHeight
      in (if glow settings then [ShadowBlur 15, ShadowColor color] else [ShadowBlur 0])
         @ FillStyle color # drawShape settings i y h)"

text \<open>One frame: clear, background, then the bars \<open>0 \<dots> bufferLength - 1\<close>.\<close>

definition drawFrame :: "(8 word list \<Rightarrow> nat \<Rightarrow> canvasOp list) \<Rightarrow> 8 word list \<Rightarrow> canvasOp list" where
  "drawFrame bar dataArray =
     ClearRect 0 0 1280 720 # DrawImage 0 0 1280 720 #
     concat (map (bar dataArray) [0..<bufferLength])"

subsection \<open>The world outside the exporter, and what the exporter does to it\<close>

text \<open>
  The answers of the browser and of the encoder. The decoded \<^verbatim>\<open>AudioBuffer\<close> is its
  \<open>duration\<close> in seconds, the only field the exporter reads; its samples reach the
  analyser inside the browser, whose byte for bin \<open>i\<close> at playback time \<open>t\<close>
  (milliseconds since \<^verbatim>\<open>source.start()\<close>) is \<open>analyserByte w t i\<close>. \<open>frameCost w k\<close> is the
  wall-clock time, in milliseconds, that iteration \<open>k\<close> of the capture loop takes on top
  of its \<^verbatim>\<open>setTimeout\<close> delay: drawing, serialising and writing the frame.
\<close>

datatype execResult = ExecRejects | ExecResolves int

record world =
  newAudioContext :: bool
  imageOnload :: bool
  arrayBuffer :: bool
  decodeAudioData :: "real option"
  analyserByte :: "real \<Rightarrow> nat \<Rightarrow> 8 word"
  frameCost :: "nat \<Rightarrow> real"
  writeFile :: "string \<Rightarrow> bool"
  exec :: execResult
  readFile :: "string \<Rightarrow> nat list option"

record canvas =
  canvasWidth :: real
  canvasHeight :: real
  canvasOps :: "canvasOp list"

text \<open>
  The calls the claims speak about, in the order they are made: the three callbacks of the
  component, the reading of the analyser (with the playback time of the call and the bytes it
  returns), and the three calls to the encoder. \<open>OnComplete\<close> carries the bytes and the MIME type of the
  blob behind the URL.
\<close>

datatype event =
    OnProgress int
  | OnComplete "nat list" string
  | OnError string
  | GetByteFrequencyData real "8 word list"
  | WriteFile string canvas
  | Exec "string list"
  | ReadFile string

datatype 'a step = Returns 'a | Throws | NeverSettles

type_synonym 'a proc = "event list \<times> 'a step"

definition emit :: "event \<Rightarrow> unit proc" where
  "emit e = ([e], Returns ())"

definition settle :: "bool \<Rightarrow> unit proc" where
  "settle ok = ([], if ok then Returns () else Throws)"

definition andThen :: "'a proc \<Rightarrow> ('a \<Rightarrow> 'b proc) \<Rightarrow> 'b proc" where
  "andThen m f =
     (case m of
        (es, Returns a) \<Rightarrow> (case f a of (es', r) \<Rightarrow> (es @ es', r))
      | (es, Throws) \<Rightarrow> (es, Throws)
      | (es, NeverSettles) \<Rightarrow> (es, NeverSettles))"

text \<open>\<^verbatim>\<open>try { ... } catch (error) { onError(msg); console.error(error); }\<close>.\<close>

definition tryCatch :: "unit proc \<Rightarrow> string \<Rightarrow> unit proc" where
  "tryCatch m msg =
     (case m of
        (es, Throws) \<Rightarrow> (es @ [OnError msg], Returns ())
      | (es, r) \<Rightarrow> (es, r))"

subsection \<open>\<open>setupCanvas\<close>\<close>

text \<open>
  The promise of \<open>setupCanvas\<close> is resolved by \<^verbatim>\<open>img.onload\<close> and by nothing else: there
  is no \<^verbatim>\<open>onerror\<close> handler and no \<open>reject\<close>. It returns the canvas it has sized.
\<close>

definition setupCanvas :: "world \<Rightarrow> canvas proc" where
  "setupCanvas w =
     (let cv = \<lparr>canvasWidth = 1280, canvasHeight = 720, canvasOps = []\<rparr>
      in ([], if imageOnload w then Returns cv else NeverSettles))"

definition setupCanvas_es :: "ExportSettings \<Rightarrow> world \<Rightarrow> canvas proc" where
  "setupCanvas_es exportSettings w =
     (let width = (if resolution exportSettings = R1080p then 1920 else 1280);
          height = (if resolution exportSettings = R1080p then 1080 else 720);
          cv = \<lparr>canvasWidth = width, canvasHeight = height, canvasOps = []\<rparr>
      in ([], if imageOnload w then Returns cv else NeverSettles))"

subsection \<open>\<open>captureFrames\<close>\<close>

text \<open>
  The loop \<^verbatim>\<open>for (let frame = 0; frame < totalFrames.current; frame++)\<close>. One iteration
  reads the analyser, draws, writes the frame under its key, reports progress and waits
  \<open>1000 / fps\<close> milliseconds. A rejected \<open>writeFile\<close> leaves the loop.
\<close>

text \<open>\<^verbatim>\<open>analyser.getByteFrequencyData(dataArray)\<close> at playback time \<open>clock\<close>.\<close>

definition getByteFrequencyData :: "world \<Rightarrow> real \<Rightarrow> 8 word list" where
  "getByteFrequencyData w clock = map (analyserByte w clock) [0..<bufferLength]"

function captureLoop ::
  "world \<Rightarrow> (8 word list \<Rightarrow> nat \<Rightarrow> canvasOp list) \<Rightarrow> canvas \<Rightarrow> int \<Rightarrow> nat \<Rightarrow> real \<Rightarrow> unit proc"
where
  "captureLoop w bar cv tf frame clock =
     (if int frame < tf then
        andThen (emit (GetByteFrequencyData clock (getByteFrequencyData w clock))) (\<lambda>_.
        andThen (emit (WriteFile (frameKey frame)
                   (cv\<lparr>canvasOps := drawFrame bar (getByteFrequencyData w clock)\<rparr>))) (\<lambda>_.
        andThen (settle (writeFile w (frameKey frame))) (\<lambda>_.
        andThen (emit (OnProgress (frameProgress frame tf))) (\<lambda>_.
        captureLoop w bar cv tf (Suc frame) (clock + frameCost w frame + 1000 / captureFps)))))
      else ([], Returns ()))"
  by pat_completeness auto
termination
  by (relation "measure (\<lambda>(w, bar, cv, tf, frame, clock). nat (tf - int frame))") auto

declare captureLoop.simps [simp del]

definition captureFrames :: "world \<Rightarrow> VisualizerSettings \<Rightarrow> canvas \<Rightarrow> real \<Rightarrow> unit proc" where
  "captureFrames w settings cv duration =
     captureLoop w (drawBar settings) cv (totalFrames duration) 0 0"

definition captureFrames_es :: "world \<Rightarrow> VisualizerSettings \<Rightarrow> canvas \<Rightarrow> real \<Rightarrow> unit proc" where
  "captureFrames_es w settings cv duration =
     captureLoop w (drawBar_es settings) cv (totalFrames duration) 0 0"

subsection \<open>\<open>exportVideo\<close>\<close>

definition decodeAudio :: "world \<Rightarrow> real proc" where
  "decodeAudio w =
     andThen (settle (arrayBuffer w)) (\<lambda>_.
     ([], case decodeAudioData w of Some duration \<Rightarrow> Returns duration | None \<Rightarrow> Throws))"

definition ffmpegExec :: "world \<Rightarrow> string list \<Rightarrow> int proc" where
  "ffmpegExec w args =
     ([Exec args], case exec w of ExecResolves code \<Rightarrow> Returns code | ExecRejects \<Rightarrow> Throws)"

definition ffmpegReadFile :: "world \<Rightarrow> string \<Rightarrow> (nat list) proc" where
  "ffmpegReadFile w name =
     ([ReadFile name], case readFile w name of Some data \<Rightarrow> Returns data | None \<Rightarrow> Throws)"

definition execArgs :: "string list" where
  "execArgs =
     [''-framerate'', ''30'', ''-i'', ''frame%06d.jpg'', ''-i'', ''input.mp3'',
      ''-c:v'', ''libx264'', ''-c:a'', ''aac'', ''-pix_fmt'', ''yuv420p'',
      ''-shortest'', ''output.mp4'']"

definition exportVideo :: "world \<Rightarrow> VisualizerSettings \<Rightarrow> unit proc" where
  "exportVideo w settings =
     tryCatch
       (andThen (emit (OnProgress 0)) (\<lambda>_.
        andThen (settle (newAudioContext w)) (\<lambda>_.
        andThen (setupCanvas w) (\<lambda>cv.
        andThen (emit (OnProgress 10)) (\<lambda>_.
        andThen (decodeAudio w) (\<lambda>duration.
        andThen (emit (OnProgress 20)) (\<lambda>_.
        andThen (captureFrames w settings cv duration) (\<lambda>_.
        andThen (ffmpegExec w execArgs) (\<lambda>_.
        andThen (emit (OnProgress 90)) (\<lambda>_.
        andThen (ffmpegReadFile w ''output.mp4'') (\<lambda>data.
        andThen (emit (OnProgress 100)) (\<lambda>_.
        emit (OnComplete data ''video/mp4'')))))))))))))
       ''Failed to export video''"

definition outputExt :: "ExportSettings \<Rightarrow> string" where
  "outputExt exportSettings = (if format exportSettings = webm then ''webm'' else ''mp4'')"

definition codec :: "ExportSettings \<Rightarrow> string" where
  "codec exportSettings = (if format exportSettings = webm then ''libvpx-vp9'' else ''libx264'')"

definition bitrate :: "ExportSettings \<Rightarrow> string" where
  "bitrate exportSettings =
     (case quality exportSettings of high \<Rightarrow> ''8M'' | medium \<Rightarrow> ''4M'' | low \<Rightarrow> ''2M'')"

definition execArgs_es :: "ExportSettings \<Rightarrow> string list" where
  "execArgs_es exportSettings =
     [''-framerate'', toString (fps exportSettings), ''-i'', ''frame%06d.jpg'',
      ''-i'', ''input.mp3'', ''-c:v'', codec exportSettings,
      ''-c:a'', (if format exportSettings = webm then ''libvorbis'' else ''aac''),
      ''-b:v'', bitrate exportSettings, ''-pix_fmt'', ''yuv420p'', ''-shortest'',
      ''output.'' @ outputExt exportSettings]"

definition exportVideo_es :: "world \<Rightarrow> VisualizerSettings \<Rightarrow> ExportSettings \<Rightarrow> unit proc" where
  "exportVideo_es w settings exportSettings =
     tryCatch
       (andThen (emit (OnProgress 0)) (\<lambda>_.
        andThen (settle (newAudioContext w)) (\<lambda>_.
        andThen (setupCanvas_es exportSettings w) (\<lambda>cv.
        andThen (emit (OnProgress 10)) (\<lambda>_.
        andThen (decodeAudio w) (\<lambda>duration.
        andThen (emit (OnProgress 20)) (\<lambda>_.
        andThen (captureFrames_es w settings cv duration) (\<lambda>_.
        andThen (ffmpegExec w (execArgs_es exportSettings)) (\<lambda>_.
        andThen (emit (OnProgress 90)) (\<lambda>_.
        andThen (ffmpegReadFile w (''output.'' @ outputExt exportSettings)) (\<lambda>data.
        andThen (emit (OnProgress 100)) (\<lambda>_.
        emit (OnComplete data
          (if format exportSettings = webm then ''video/webm'' else ''video/mp4''))))))))))))))
       ''Failed to export video''"

subsection \<open>Reading a trace\<close>

fun progressOf :: "event list \<Rightarrow> int list" where
  "progressOf [] = []"
| "progressOf (OnProgress p # es) = p # progressOf es"
| "progressOf (_ # es) = progressOf es"

fun writtenKeys :: "event list \<Rightarrow> string list" where
  "writtenKeys [] = []"
| "writtenKeys (WriteFile k _ # es) = k # writtenKeys es"
| "writtenKeys (_ # es) = writtenKeys es"

fun writtenFrames :: "event list \<Rightarrow> canvas list" where
  "writtenFrames [] = []"
| "writtenFrames (WriteFile _ c # es) = c # writtenFrames es"
| "writtenFrames (_ # es) = writtenFrames es"

fun sampleTimes :: "event list \<Rightarrow> real list" where
  "sampleTimes [] = []"
| "sampleTimes (GetByteFrequencyData t _ # es) = t # sampleTimes es"
| "sampleTimes (_ # es) = sampleTimes es"

fun spectra :: "event list \<Rightarrow> 8 word list list" where
  "spectra [] = []"
| "spectra (GetByteFrequencyData _ dataArray # es) = dataArray # spectra es"
| "spectra (_ # es) = spectra es"

fun execCalls :: "event list \<Rightarrow> string list list" where
  "execCalls [] = []"
| "execCalls (Exec args # es) = args # execCalls es"
| "execCalls (_ # es) = execCalls es"

fun isOnError :: "event \<Rightarrow> bool" where
  "isOnError (OnError _) = True"
| "isOnError _ = False"

fun isOnComplete :: "event \<Rightarrow> bool" where
  "isOnComplete (OnComplete _ _) = True"
| "isOnComplete _ = False"

subsection \<open>Inputs used as examples\<close>

text \<open>The initial \<^verbatim>\<open>visualizerSettings\<close> of the page that mounts the exporter.\<close>

definition defaultSettings :: VisualizerSettings where
  "defaultSettings =
     \<lparr>barSpacing = 1, barHeight = 0.7, colorScheme = greenRed, position = Bottom,
      shape = rounded, glow = False\<rparr>"

text \<open>
  A world in which every call succeeds: the track lasts \<open>duration\<close> seconds and is silent
  for its first 50 milliseconds, every bin is at full scale afterwards, and every
  iteration of the capture loop costs \<open>cost\<close> milliseconds besides its timer.
\<close>

definition exampleWorld :: "real \<Rightarrow> real \<Rightarrow> world" where
  "exampleWorld duration cost =
     \<lparr>newAudioContext = True, imageOnload = True, arrayBuffer = True,
      decodeAudioData = Some duration,
      analyserByte = (\<lambda>t i. if t < 50 then 0 else 255),
      frameCost = (\<lambda>k. cost), writeFile = (\<lambda>name. True),
      exec = ExecResolves 0, readFile = (\<lambda>name. Some [])\<rparr>"

definition exampleExport :: "nat \<Rightarrow> ExportSettings" where
  "exampleExport f = \<lparr>resolution = R1080p, fps = f, format = mp4, quality = high\<rparr>"

section \<open>Properties\<close>

subsection \<open>Rounding to a double\<close>

text \<open>
  The exponent found by \<open>ulpExp\<close> is the one that brackets \<open>\<bar>x\<bar>\<close>; rounding is monotone
  on the non-negative numbers, leaves every \<open>n * 2 powi j\<close> with \<open>\<bar>n\<bar> < 2 ^ 53\<close> as it is,
  and moves a number of the normal range by at most the \<open>2 ^ 53\<close>-th part of it.
\<close>

lemma scan_spec:
  "- 1074 \<le> scanExp n a \<and> scanExp n a \<le> int n - 1074 \<and>
   (scanExp n a \<noteq> - 1074 \<longrightarrow> 2 powi (scanExp n a + 52) \<le> a) \<and>
   (\<forall>e'. scanExp n a < e' \<and> e' \<le> int n - 1074 \<longrightarrow> a < 2 powi (e' + 52))"
proof (induction n)
  case 0
  then show ?case by simp
next
  case (Suc n)
  show ?case
  proof (cases "2 powi (int n - 1021) \<le> a")
    case True
    then show ?thesis by (simp add: algebra_simps)
  next
    case False
    have "a < 2 powi (e' + 52)" if "scanExp n a < e'" "e' \<le> int (Suc n) - 1074" for e'
    proof (cases "e' \<le> int n - 1074")
      case True
      with Suc that show ?thesis by blast
    next
      case False
      with that have e: "e' = int n - 1073" by simp
      have "int n - 1073 + 52 = int n - 1021" by simp
      with \<open>\<not> 2 powi (int n - 1021) \<le> a\<close> show ?thesis unfolding e by simp
    qed
    with False Suc show ?thesis by auto
  qed
qed


lemma ulpExp_range: "- 1074 \<le> ulpExp x" "ulpExp x \<le> 971"
  using scan_spec [of 2045 "\<bar>x\<bar>"] by (simp_all add: ulpExp_def)

lemma ulpExp_lower: "ulpExp x \<noteq> - 1074 \<Longrightarrow> 2 powi (ulpExp x + 52) \<le> \<bar>x\<bar>"
  using scan_spec [of 2045 "\<bar>x\<bar>"] by (simp add: ulpExp_def)

lemma ulpExp_upper:
  assumes "ulpExp x < e'" "e' \<le> 971"
  shows "\<bar>x\<bar> < 2 powi (e' + 52)"
  using scan_spec [of 2045 "\<bar>x\<bar>"] assms by (simp add: ulpExp_def)

lemma powi_mono: "i \<le> j \<Longrightarrow> (2::real) powi i \<le> 2 powi j"
  by (rule power_int_increasing) simp_all

lemma ulpExp_mono:
  assumes "\<bar>x\<bar> \<le> \<bar>y\<bar>"
  shows "ulpExp x \<le> ulpExp y"
proof (rule ccontr)
  assume "\<not> ulpExp x \<le> ulpExp y"
  then have lt: "ulpExp y < ulpExp x" by simp
  with ulpExp_range [of y] have "ulpExp x \<noteq> - 1074" by linarith
  then have "2 powi (ulpExp x + 52) \<le> \<bar>x\<bar>" by (rule ulpExp_lower)
  moreover have "\<bar>y\<bar> < 2 powi (ulpExp x + 52)"
    using lt ulpExp_range(2) [of x] by (rule ulpExp_upper)
  ultimately show False using assms by linarith
qed

lemma ulpExp_eq:
  assumes "- 1074 \<le> e" "e \<le> 971"
    and "e = - 1074 \<or> 2 powi (e + 52) \<le> \<bar>x\<bar>"
    and "e = 971 \<or> \<bar>x\<bar> < 2 powi (e + 53)"
  shows "ulpExp x = e"
proof (rule antisym)
  show "ulpExp x \<le> e"
  proof (rule ccontr)
    assume "\<not> ulpExp x \<le> e"
    then have lt: "e < ulpExp x" by simp
    with ulpExp_range(2) [of x] assms(4) have up: "\<bar>x\<bar> < 2 powi (e + 53)" by linarith
    from lt assms(1) have "ulpExp x \<noteq> - 1074" by linarith
    then have "2 powi (ulpExp x + 52) \<le> \<bar>x\<bar>" by (rule ulpExp_lower)
    moreover from lt have "(2::real) powi (e + 53) \<le> 2 powi (ulpExp x + 52)"
      by (intro powi_mono) simp
    ultimately show False using up by linarith
  qed
  show "e \<le> ulpExp x"
  proof (rule ccontr)
    assume "\<not> e \<le> ulpExp x"
    then have lt: "ulpExp x < e" by simp
    with ulpExp_range(1) [of x] assms(3) have "2 powi (e + 52) \<le> \<bar>x\<bar>" by linarith
    moreover have "\<bar>x\<bar> < 2 powi (e + 52)" using lt assms(2) by (rule ulpExp_upper)
    ultimately show False by linarith
  qed
qed

lemma rne_int [simp]: "rne (of_int n) = n"
  by (simp add: rne_def)

lemma rne_bounds: "\<lfloor>y\<rfloor> \<le> rne y" "rne y \<le> \<lfloor>y\<rfloor> + 1"
  by (simp_all add: rne_def Let_def)

lemma rne_mono:
  assumes "y \<le> z"
  shows "rne y \<le> rne z"
proof (cases "\<lfloor>y\<rfloor> = \<lfloor>z\<rfloor>")
  case True
  with assms show ?thesis by (auto simp add: rne_def Let_def)
next
  case False
  with assms have "\<lfloor>y\<rfloor> < \<lfloor>z\<rfloor>" using floor_mono [OF assms] by linarith
  with rne_bounds(2) [of y] rne_bounds(1) [of z] show ?thesis by linarith
qed



lemma powi_add: "(2::real) powi (a + b) = 2 powi a * 2 powi b"
  by (simp add: power_int_add)

lemma powi_diff: "(2::real) powi (a - b) = 2 powi a / 2 powi b"
  by (simp add: power_int_diff)

lemma roundToDouble_at:
  assumes "ulpExp x = e"
  shows "roundToDouble x = of_int (rne (x / 2 powi e)) * 2 powi e"
  using assms by (simp add: roundToDouble_def)

lemma roundToDouble_eval:
  assumes "- 1074 \<le> e" "e \<le> 971"
    and "e = - 1074 \<or> 2 powi (e + 52) \<le> \<bar>x\<bar>"
    and "e = 971 \<or> \<bar>x\<bar> < 2 powi (e + 53)"
  shows "roundToDouble x = of_int (rne (x / 2 powi e)) * 2 powi e"
  by (rule roundToDouble_at) (rule ulpExp_eq [OF assms])

lemma roundToDouble_mono:
  assumes "0 \<le> x" "x \<le> y"
  shows "roundToDouble x \<le> roundToDouble y"
proof -
  let ?ex = "ulpExp x" and ?ey = "ulpExp y"
  from assms have "\<bar>x\<bar> \<le> \<bar>y\<bar>" by simp
  then have le: "?ex \<le> ?ey" by (rule ulpExp_mono)
  show ?thesis
  proof (cases "?ex = ?ey")
    case True
    from assms(2) have "x / 2 powi ?ey \<le> y / 2 powi ?ey"
      by (simp add: divide_right_mono)
    then have "rne (x / 2 powi ?ey) \<le> rne (y / 2 powi ?ey)" by (rule rne_mono)
    then have "real_of_int (rne (x / 2 powi ?ey)) * 2 powi ?ey \<le>
               real_of_int (rne (y / 2 powi ?ey)) * 2 powi ?ey"
      by (simp add: mult_right_mono)
    with True show ?thesis by (simp add: roundToDouble_def)
  next
    case False
    with le have lt: "?ex < ?ey" by simp
    have "\<bar>x\<bar> < 2 powi (?ex + 1 + 52)"
      using ulpExp_upper [of x "?ex + 1"] lt ulpExp_range(2) [of y] by simp
    with assms(1) have "x < 2 powi ?ex * 2 ^ 53"
      by (simp add: powi_add algebra_simps)
    then have "x / 2 powi ?ex \<le> of_int (2 ^ 53)"
      by (simp add: pos_divide_le_eq mult.commute)
    then have "rne (x / 2 powi ?ex) \<le> rne (of_int (2 ^ 53))" by (rule rne_mono)
    then have "real_of_int (rne (x / 2 powi ?ex)) \<le> real_of_int (2 ^ 53)"
      unfolding rne_int by (simp only: of_int_le_iff)
    then have "real_of_int (rne (x / 2 powi ?ex)) \<le> 2 ^ 53" by simp
    then have "roundToDouble x \<le> 2 ^ 53 * 2 powi ?ex"
      by (simp add: roundToDouble_def mult_right_mono)
    also have "\<dots> = 2 powi (?ex + 53)" by (simp add: powi_add)
    also have "\<dots> \<le> 2 powi (?ey + 52)" using lt by (intro powi_mono) simp
    finally have a: "roundToDouble x \<le> 2 powi (?ey + 52)" .
    from lt ulpExp_range(1) [of x] have "?ey \<noteq> - 1074" by linarith
    then have "2 powi (?ey + 52) \<le> \<bar>y\<bar>" by (rule ulpExp_lower)
    with assms have "2 powi ?ey * 2 ^ 52 \<le> y" by (simp add: powi_add)
    then have "of_int (2 ^ 52) \<le> y / 2 powi ?ey"
      by (simp add: pos_le_divide_eq mult.commute)
    then have "rne (of_int (2 ^ 52)) \<le> rne (y / 2 powi ?ey)" by (rule rne_mono)
    then have "real_of_int (2 ^ 52) \<le> real_of_int (rne (y / 2 powi ?ey))"
      unfolding rne_int by (simp only: of_int_le_iff)
    then have "2 ^ 52 \<le> real_of_int (rne (y / 2 powi ?ey))" by simp
    then have "2 ^ 52 * 2 powi ?ey \<le> roundToDouble y"
      by (simp add: roundToDouble_def mult_right_mono)
    then have "2 powi (?ey + 52) \<le> roundToDouble y" by (simp add: powi_add mult.commute)
    with a show ?thesis by linarith
  qed
qed

lemma roundToDouble_dyadic:
  assumes "\<bar>n\<bar> < 2 ^ 53" "- 1074 \<le> j"
  shows "roundToDouble (of_int n * 2 powi j) = of_int n * 2 powi j"
proof -
  define x where "x = real_of_int n * 2 powi j"
  define e where "e = ulpExp x"
  have "e \<le> j"
  proof (cases "e = - 1074")
    case True
    with assms(2) show ?thesis by simp
  next
    case False
    then have "2 powi (e + 52) \<le> \<bar>x\<bar>" unfolding e_def by (rule ulpExp_lower)
    also have "\<bar>x\<bar> = \<bar>real_of_int n\<bar> * 2 powi j" by (simp add: x_def abs_mult)
    also have "\<dots> < 2 ^ 53 * 2 powi j"
    proof -
      from assms(1) have "\<bar>real_of_int n\<bar> < 2 ^ 53"
        by (metis of_int_abs of_int_less_numeral_power_cancel_iff)
      then show ?thesis by (simp add: mult_strict_right_mono)
    qed
    also have "\<dots> = 2 powi (j + 53)" by (simp add: powi_add)
    finally have "(2::real) powi (e + 52) < 2 powi (j + 53)" .
    then have "\<not> (2::real) powi (j + 53) \<le> 2 powi (e + 52)" by simp
    then have "\<not> j + 53 \<le> e + 52" using powi_mono by blast
    then show ?thesis by simp
  qed
  then obtain k :: nat where k: "j = e + int k"
    by (metis zle_iff_zadd)
  have q: "x / 2 powi e = of_int (n * 2 ^ k)"
    by (simp add: x_def k powi_add power_int_of_nat)
  have "roundToDouble x = of_int (rne (x / 2 powi e)) * 2 powi e"
    by (rule roundToDouble_at) (simp add: e_def)
  also have "\<dots> = of_int (n * 2 ^ k) * 2 powi e" by (simp only: q rne_int)
  also have "\<dots> = x" by (simp add: x_def k powi_add power_int_of_nat)
  finally show ?thesis by (simp add: x_def)
qed

lemma roundToDouble_int:
  assumes "\<bar>n\<bar> < 2 ^ 53"
  shows "roundToDouble (of_int n) = of_int n"
  using roundToDouble_dyadic [OF assms, of 0] by simp


lemma roundToDouble_nonneg: "0 \<le> x \<Longrightarrow> 0 \<le> roundToDouble x"
  using roundToDouble_mono [of 0 x] roundToDouble_int [of 0] by simp


subsection \<open>Frame keys\<close>





lemma frameKey_not_audio: "frameKey k \<noteq> ''input.mp3''"
  by (simp add: frameKey_def)



subsection \<open>Progress values\<close>

lemma mathRound_mono: "x \<le> y \<Longrightarrow> mathRound x \<le> mathRound y"
  by (simp add: mathRound_def floor_mono)

lemma roundToDouble_numeral:
  "(numeral n :: int) < 2 ^ 53 \<Longrightarrow> roundToDouble (numeral n) = numeral n"
  using roundToDouble_int [of "numeral n"] by simp

lemma roundToDouble_0 [simp]: "roundToDouble 0 = 0"
  using roundToDouble_int [of 0] by simp

lemma roundToDouble_1 [simp]: "roundToDouble 1 = 1"
  using roundToDouble_int [of 1] by simp

lemma mulD_doubles:
  "roundToDouble x = x \<Longrightarrow> roundToDouble y = y \<Longrightarrow> mulD x y = roundToDouble (x * y)"
  by (simp add: mulD_def)

lemma divD_doubles:
  "roundToDouble x = x \<Longrightarrow> roundToDouble y = y \<Longrightarrow> divD x y = roundToDouble (x / y)"
  by (simp add: divD_def)

lemma divD_mono:
  assumes "0 \<le> x" "x \<le> x'" "1 \<le> y"
  shows "divD x y \<le> divD x' y" "0 \<le> divD x y"
proof -
  have a: "0 \<le> roundToDouble x" "roundToDouble x \<le> roundToDouble x'"
    using assms by (simp_all add: roundToDouble_nonneg roundToDouble_mono)
  have "roundToDouble 1 \<le> roundToDouble y" using assms(3) by (intro roundToDouble_mono) simp_all
  then have b: "1 \<le> roundToDouble y" by simp
  with a have "0 \<le> roundToDouble x / roundToDouble y"
    "roundToDouble x / roundToDouble y \<le> roundToDouble x' / roundToDouble y"
    by (simp_all add: divide_right_mono)
  then show "divD x y \<le> divD x' y" "0 \<le> divD x y"
    unfolding divD_def by (simp_all add: roundToDouble_nonneg roundToDouble_mono)
qed

lemma divD_le_one:
  assumes "0 \<le> x" "x \<le> y" "1 \<le> y"
  shows "divD x y \<le> 1"
proof -
  have a: "0 \<le> roundToDouble x" "roundToDouble x \<le> roundToDouble y"
    using assms by (simp_all add: roundToDouble_nonneg roundToDouble_mono)
  have "roundToDouble 1 \<le> roundToDouble y" using assms(3) by (intro roundToDouble_mono) simp_all
  then have b: "1 \<le> roundToDouble y" by simp
  with a have "0 \<le> roundToDouble x / roundToDouble y" "roundToDouble x / roundToDouble y \<le> 1"
    by simp_all
  then have "divD x y \<le> roundToDouble 1"
    unfolding divD_def by (rule roundToDouble_mono)
  then show ?thesis by simp
qed

lemma mulD_70_mono:
  assumes "0 \<le> x" "x \<le> x'"
  shows "mulD x 70 \<le> mulD x' 70" "0 \<le> mulD x 70"
proof -
  have a: "0 \<le> roundToDouble x" "roundToDouble x \<le> roundToDouble x'"
    using assms by (simp_all add: roundToDouble_nonneg roundToDouble_mono)
  then have "0 \<le> roundToDouble x * 70" "roundToDouble x * 70 \<le> roundToDouble x' * 70"
    by simp_all
  then show "mulD x 70 \<le> mulD x' 70" "0 \<le> mulD x 70"
    unfolding mulD_def by (simp_all add: roundToDouble_numeral roundToDouble_nonneg roundToDouble_mono)
qed

lemma mulD_70_le:
  assumes "0 \<le> x" "x \<le> 1"
  shows "mulD x 70 \<le> 70"
proof -
  have "roundToDouble x \<le> roundToDouble 1" using assms by (rule roundToDouble_mono)
  then have a: "roundToDouble x * 70 \<le> 70" by simp
  from assms(1) have "0 \<le> roundToDouble x * 70" by (simp add: roundToDouble_nonneg)
  from this a have "roundToDouble (roundToDouble x * 70) \<le> roundToDouble 70"
    by (rule roundToDouble_mono)
  then show ?thesis by (simp add: mulD_def roundToDouble_numeral)
qed

lemma frameProgress_mono: "0 < tf \<Longrightarrow> frameProgress k tf \<le> frameProgress (Suc k) tf"
proof -
  assume "0 < tf"
  then have t: "1 \<le> real_of_int tf" by linarith
  have "0 \<le> divD (real k) (real_of_int tf)"
    "divD (real k) (real_of_int tf) \<le> divD (real (Suc k)) (real_of_int tf)"
    using t divD_mono [of "real k" "real (Suc k)" "real_of_int tf"] by simp_all
  then have "mulD (divD (real k) (real_of_int tf)) 70 \<le>
      mulD (divD (real (Suc k)) (real_of_int tf)) 70"
    by (rule mulD_70_mono)
  then show ?thesis
    unfolding frameProgress_def by (intro add_right_mono mathRound_mono)
qed

lemma frameProgress_ge:
  assumes "0 < tf"
  shows "20 \<le> frameProgress k tf"
proof -
  from assms have t: "1 \<le> real_of_int tf" by linarith
  then have "0 \<le> divD (real k) (real_of_int tf)"
    using divD_mono(2) [of "real k" "real k" "real_of_int tf"] by simp
  then have "0 \<le> mulD (divD (real k) (real_of_int tf)) 70"
    using mulD_70_mono(2) [of "divD (real k) (real_of_int tf)" "divD (real k) (real_of_int tf)"]
    by simp
  then have "0 \<le> mathRound (mulD (divD (real k) (real_of_int tf)) 70)"
    unfolding mathRound_def by simp
  then show ?thesis by (simp add: frameProgress_def)
qed

lemma frameProgress_le:
  assumes "int k < tf"
  shows "frameProgress k tf \<le> 90"
proof -
  from assms have t: "1 \<le> real_of_int tf" "real k \<le> real_of_int tf" by linarith+
  then have "0 \<le> divD (real k) (real_of_int tf)" "divD (real k) (real_of_int tf) \<le> 1"
    using divD_mono(2) [of "real k" "real k" "real_of_int tf"]
    by (simp_all add: divD_le_one)
  then have "mulD (divD (real k) (real_of_int tf)) 70 \<le> 70" by (rule mulD_70_le)
  then have "mulD (divD (real k) (real_of_int tf)) 70 + 1 / 2 < 71" by simp
  then have "mathRound (mulD (divD (real k) (real_of_int tf)) 70) < 71"
    unfolding mathRound_def by (simp add: floor_less_iff)
  then show ?thesis by (simp add: frameProgress_def)
qed

subsection \<open>One iteration of the capture loop\<close>

lemma andThen_emit: "andThen (emit e) f = (e # fst (f ()), snd (f ()))"
  by (simp add: andThen_def emit_def split: prod.splits)

lemma andThen_settle: "andThen (settle ok) f = (if ok then f () else ([], Throws))"
  by (simp add: andThen_def settle_def split: prod.splits)

lemma captureLoop_done:
  "\<not> int frame < tf \<Longrightarrow> captureLoop w bar cv tf frame clock = ([], Returns ())"
  by (simp add: captureLoop.simps)

lemma captureLoop_fail:
  "int frame < tf \<Longrightarrow> \<not> writeFile w (frameKey frame) \<Longrightarrow>
   captureLoop w bar cv tf frame clock =
     ([GetByteFrequencyData clock (getByteFrequencyData w clock),
       WriteFile (frameKey frame) (cv\<lparr>canvasOps := drawFrame bar (getByteFrequencyData w clock)\<rparr>)],
      Throws)"
  by (subst captureLoop.simps) (simp add: andThen_emit andThen_settle)

lemma captureLoop_step:
  "int frame < tf \<Longrightarrow> writeFile w (frameKey frame) \<Longrightarrow>
   captureLoop w bar cv tf frame clock =
     (GetByteFrequencyData clock (getByteFrequencyData w clock) #
      WriteFile (frameKey frame) (cv\<lparr>canvasOps := drawFrame bar (getByteFrequencyData w clock)\<rparr>) #
      OnProgress (frameProgress frame tf) #
      fst (captureLoop w bar cv tf (Suc frame) (clock + frameCost w frame + 1000 / captureFps)),
      snd (captureLoop w bar cv tf (Suc frame) (clock + frameCost w frame + 1000 / captureFps)))"
  by (subst captureLoop.simps) (simp add: andThen_emit andThen_settle)

lemmas captureLoop_unfold = captureLoop_done captureLoop_fail captureLoop_step

subsection \<open>The whole capture loop\<close>

lemma loop_status: "snd (captureLoop w bar cv tf frame clock) \<noteq> NeverSettles"
proof (induction w bar cv tf frame clock rule: captureLoop.induct)
  case (1 w bar cv tf frame clock)
  then show ?case
    by (cases "int frame < tf"; cases "writeFile w (frameKey frame)")
       (simp_all add: captureLoop_unfold)
qed

lemma loop_returns:
  "(\<And>name. writeFile w name) \<Longrightarrow> snd (captureLoop w bar cv tf frame clock) = Returns ()"
proof (induction w bar cv tf frame clock rule: captureLoop.induct)
  case (1 w bar cv tf frame clock)
  then show ?case
    by (cases "int frame < tf") (simp_all add: captureLoop_unfold)
qed

lemma loop_exec: "execCalls (fst (captureLoop w bar cv tf frame clock)) = []"
proof (induction w bar cv tf frame clock rule: captureLoop.induct)
  case (1 w bar cv tf frame clock)
  then show ?case
    by (cases "int frame < tf"; cases "writeFile w (frameKey frame)")
       (simp_all add: captureLoop_unfold)
qed

lemma loop_callbacks:
  "\<not> list_ex isOnError (fst (captureLoop w bar cv tf frame clock)) \<and>
   \<not> list_ex isOnComplete (fst (captureLoop w bar cv tf frame clock))"
proof (induction w bar cv tf frame clock rule: captureLoop.induct)
  case (1 w bar cv tf frame clock)
  then show ?case
    by (cases "int frame < tf"; cases "writeFile w (frameKey frame)")
       (simp_all add: captureLoop_unfold)
qed

lemma loop_keys_frames:
  "''input.mp3'' \<notin> set (writtenKeys (fst (captureLoop w bar cv tf frame clock)))"
proof (induction w bar cv tf frame clock rule: captureLoop.induct)
  case (1 w bar cv tf frame clock)
  then show ?case
    by (cases "int frame < tf"; cases "writeFile w (frameKey frame)")
       (simp_all add: captureLoop_unfold frameKey_not_audio [symmetric])
qed

lemma loop_keys:
  "snd (captureLoop w bar cv tf frame clock) = Returns () \<Longrightarrow>
   writtenKeys (fst (captureLoop w bar cv tf frame clock)) = map frameKey [frame..<nat tf]"
proof (induction w bar cv tf frame clock rule: captureLoop.induct)
  case (1 w bar cv tf frame clock)
  show ?case
  proof (cases "int frame < tf")
    case False
    then show ?thesis by (simp add: captureLoop_done)
  next
    case True
    show ?thesis
    proof (cases "writeFile w (frameKey frame)")
      case False
      with True 1(2) show ?thesis by (simp add: captureLoop_fail)
    next
      case ok: True
      from True have "frame < nat tf" by linarith
      then have "[frame..<nat tf] = frame # [Suc frame..<nat tf]" by (rule upt_conv_Cons)
      with True ok 1 show ?thesis by (simp add: captureLoop_step)
    qed
  qed
qed

lemma loop_progress:
  "int frame \<le> tf \<Longrightarrow>
   sorted (progressOf (fst (captureLoop w bar cv tf frame clock))) \<and>
   (\<forall>p \<in> set (progressOf (fst (captureLoop w bar cv tf frame clock))).
      20 \<le> p \<and> frameProgress frame tf \<le> p \<and> p \<le> 90)"
proof (induction w bar cv tf frame clock rule: captureLoop.induct)
  case (1 w bar cv tf frame clock)
  show ?case
  proof (cases "int frame < tf")
    case False
    then show ?thesis by (simp add: captureLoop_done)
  next
    case True
    show ?thesis
    proof (cases "writeFile w (frameKey frame)")
      case False
      with True show ?thesis by (simp add: captureLoop_fail)
    next
      case ok: True
      let ?rest = "progressOf (fst (captureLoop w bar cv tf (Suc frame)
                     (clock + frameCost w frame + 1000 / captureFps)))"
      from True have pos: "0 < tf" by linarith
      from True have "int (Suc frame) \<le> tf" by simp
      with 1(1) [OF True] have ih: "sorted ?rest"
        "\<forall>p \<in> set ?rest. 20 \<le> p \<and> frameProgress (Suc frame) tf \<le> p \<and> p \<le> 90"
        by blast+
      have m: "frameProgress frame tf \<le> frameProgress (Suc frame) tf"
        using pos by (rule frameProgress_mono)
      have "20 \<le> frameProgress frame tf" "frameProgress frame tf \<le> 90"
        using pos True by (simp_all add: frameProgress_ge frameProgress_le)
      with ih m True ok show ?thesis
        by (auto simp add: captureLoop_step)
    qed
  qed
qed

lemma loop_progress_nth:
  "k < length (progressOf (fst (captureLoop w bar cv tf frame clock))) \<Longrightarrow>
   progressOf (fst (captureLoop w bar cv tf frame clock)) ! k = frameProgress (frame + k) tf"
proof (induction w bar cv tf frame clock arbitrary: k rule: captureLoop.induct)
  case (1 w bar cv tf frame clock)
  show ?case
  proof (cases "int frame < tf")
    case False
    with 1(2) show ?thesis by (simp add: captureLoop_done)
  next
    case True
    show ?thesis
    proof (cases "writeFile w (frameKey frame)")
      case False
      with True 1(2) show ?thesis by (simp add: captureLoop_fail)
    next
      case ok: True
      show ?thesis
      proof (cases k)
        case 0
        with True ok show ?thesis by (simp add: captureLoop_step)
      next
        case (Suc k')
        with True ok 1(2) have
          "k' < length (progressOf (fst (captureLoop w bar cv tf (Suc frame)
                  (clock + frameCost w frame + 1000 / captureFps))))"
          by (simp add: captureLoop_step)
        from 1(1) [OF True this] True ok Suc show ?thesis
          by (simp add: captureLoop_step)
      qed
    qed
  qed
qed

lemma loop_progress_length:
  "snd (captureLoop w bar cv tf frame clock) = Returns () \<Longrightarrow>
   length (progressOf (fst (captureLoop w bar cv tf frame clock))) = nat tf - frame"
proof (induction w bar cv tf frame clock rule: captureLoop.induct)
  case (1 w bar cv tf frame clock)
  show ?case
  proof (cases "int frame < tf")
    case False
    then show ?thesis by (simp add: captureLoop_done)
  next
    case True
    show ?thesis
    proof (cases "writeFile w (frameKey frame)")
      case False
      with True 1(2) show ?thesis by (simp add: captureLoop_fail)
    next
      case ok: True
      from True have "nat tf - frame = Suc (nat tf - Suc frame)" by linarith
      with True ok 1 show ?thesis by (simp add: captureLoop_step)
    qed
  qed
qed

lemma loop_sampleTimes:
  "k < length (sampleTimes (fst (captureLoop w bar cv tf frame clock))) \<Longrightarrow>
   sampleTimes (fst (captureLoop w bar cv tf frame clock)) ! k =
     clock + (\<Sum>j = frame..<frame + k. frameCost w j + 1000 / captureFps)"
proof (induction w bar cv tf frame clock arbitrary: k rule: captureLoop.induct)
  case (1 w bar cv tf frame clock)
  show ?case
  proof (cases "int frame < tf")
    case False
    with 1(2) show ?thesis by (simp add: captureLoop_done)
  next
    case True
    show ?thesis
    proof (cases "writeFile w (frameKey frame)")
      case False
      with True 1(2) show ?thesis by (simp add: captureLoop_fail)
    next
      case ok: True
      show ?thesis
      proof (cases k)
        case 0
        with True ok show ?thesis by (simp add: captureLoop_step)
      next
        case (Suc k')
        with True ok 1(2) have
          "k' < length (sampleTimes (fst (captureLoop w bar cv tf (Suc frame)
                  (clock + frameCost w frame + 1000 / captureFps))))"
          by (simp add: captureLoop_step)
        from 1(1) [OF True this] True ok Suc show ?thesis
          by (simp add: captureLoop_step sum.atLeast_Suc_lessThan)
      qed
    qed
  qed
qed

lemma loop_spectra:
  "length (spectra (fst (captureLoop w bar cv tf frame clock))) =
     length (sampleTimes (fst (captureLoop w bar cv tf frame clock))) \<and>
   length (writtenFrames (fst (captureLoop w bar cv tf frame clock))) =
     length (sampleTimes (fst (captureLoop w bar cv tf frame clock))) \<and>
   (\<forall>k < length (sampleTimes (fst (captureLoop w bar cv tf frame clock))).
      spectra (fst (captureLoop w bar cv tf frame clock)) ! k =
        getByteFrequencyData w (sampleTimes (fst (captureLoop w bar cv tf frame clock)) ! k) \<and>
      writtenFrames (fst (captureLoop w bar cv tf frame clock)) ! k =
        cv\<lparr>canvasOps := drawFrame bar (spectra (fst (captureLoop w bar cv tf frame clock)) ! k)\<rparr>)"
proof (induction w bar cv tf frame clock rule: captureLoop.induct)
  case (1 w bar cv tf frame clock)
  show ?case
  proof (cases "int frame < tf")
    case False
    then show ?thesis by (simp add: captureLoop_done)
  next
    case True
    show ?thesis
    proof (cases "writeFile w (frameKey frame)")
      case False
      with True show ?thesis by (simp add: captureLoop_fail)
    next
      case ok: True
      with True 1(1) [OF True] show ?thesis
        by (simp add: captureLoop_step nth_Cons split: nat.splits)
    qed
  qed
qed

subsection \<open>The shape of a run\<close>

lemma run_shape:
  "tryCatch
       (andThen (emit (OnProgress 0)) (\<lambda>_.
        andThen (settle (newAudioContext w)) (\<lambda>_.
        andThen ([], if imageOnload w then Returns cv else NeverSettles) (\<lambda>cv.
        andThen (emit (OnProgress 10)) (\<lambda>_.
        andThen (decodeAudio w) (\<lambda>duration.
        andThen (emit (OnProgress 20)) (\<lambda>_.
        andThen (capture cv duration) (\<lambda>_.
        andThen (ffmpegExec w args) (\<lambda>_.
        andThen (emit (OnProgress 90)) (\<lambda>_.
        andThen (ffmpegReadFile w out) (\<lambda>data.
        andThen (emit (OnProgress 100)) (\<lambda>_.
        emit (OnComplete data mime))))))))))))) msg =
   (if \<not> newAudioContext w then ([OnProgress 0, OnError msg], Returns ())
    else if \<not> imageOnload w then ([OnProgress 0], NeverSettles)
    else if \<not> arrayBuffer w \<or> decodeAudioData w = None
      then ([OnProgress 0, OnProgress 10, OnError msg], Returns ())
    else
      (case snd (capture cv (the (decodeAudioData w))) of
         Throws \<Rightarrow>
           ([OnProgress 0, OnProgress 10, OnProgress 20] @
            fst (capture cv (the (decodeAudioData w))) @ [OnError msg], Returns ())
       | NeverSettles \<Rightarrow>
           ([OnProgress 0, OnProgress 10, OnProgress 20] @
            fst (capture cv (the (decodeAudioData w))), NeverSettles)
       | Returns _ \<Rightarrow>
          (case exec w of
             ExecRejects \<Rightarrow>
               ([OnProgress 0, OnProgress 10, OnProgress 20] @
                fst (capture cv (the (decodeAudioData w))) @ [Exec args, OnError msg], Returns ())
           | ExecResolves _ \<Rightarrow>
              (case readFile w out of
                 None \<Rightarrow>
                   ([OnProgress 0, OnProgress 10, OnProgress 20] @
                    fst (capture cv (the (decodeAudioData w))) @
                    [Exec args, OnProgress 90, ReadFile out, OnError msg], Returns ())
               | Some data \<Rightarrow>
                   ([OnProgress 0, OnProgress 10, OnProgress 20] @
                    fst (capture cv (the (decodeAudioData w))) @
                    [Exec args, OnProgress 90, ReadFile out, OnProgress 100, OnComplete data mime],
                    Returns ())))))"
  by (auto simp add: tryCatch_def andThen_def emit_def settle_def decodeAudio_def ffmpegExec_def
      ffmpegReadFile_def split: prod.splits step.splits option.splits execResult.splits)

lemmas exportVideo_shape =
  run_shape [of w "\<lparr>canvasWidth = 1280, canvasHeight = 720, canvasOps = []\<rparr>"
    "captureFrames w settings" execArgs "''output.mp4''" "''video/mp4''" "''Failed to export video''",
    folded exportVideo_def [unfolded setupCanvas_def Let_def]] for w settings

lemmas exportVideo_es_shape =
  run_shape [of w
    "\<lparr>canvasWidth = if resolution exportSettings = R1080p then 1920 else 1280,
      canvasHeight = if resolution exportSettings = R1080p then 1080 else 720, canvasOps = []\<rparr>"
    "captureFrames_es w settings" "execArgs_es exportSettings"
    "''output.'' @ outputExt exportSettings"
    "if format exportSettings = webm then ''video/webm'' else ''video/mp4''"
    "''Failed to export video''",
    folded exportVideo_es_def [unfolded setupCanvas_es_def Let_def]] for w settings exportSettings

subsection \<open>The example runs\<close>

lemma exampleWorld_simps:
  "newAudioContext (exampleWorld d c)" "imageOnload (exampleWorld d c)"
  "arrayBuffer (exampleWorld d c)" "decodeAudioData (exampleWorld d c) = Some d"
  "writeFile (exampleWorld d c) name" "frameCost (exampleWorld d c) k = c"
  "exec (exampleWorld d c) = ExecResolves 0" "readFile (exampleWorld d c) name = Some []"
  "getByteFrequencyData (exampleWorld d c) t = replicate bufferLength (if t < 50 then 0 else 255)"
  by (simp_all add: exampleWorld_def getByteFrequencyData_def map_replicate_const)

lemma frameKey_0: "frameKey 0 = ''frame000000.jpg''"
  by code_simp

lemma frameKey_1: "frameKey (Suc 0) = ''frame000001.jpg''"
  by code_simp

lemma example_capture:
  "captureLoop (exampleWorld d c) bar cv 2 0 0 =
     ([GetByteFrequencyData 0 (replicate bufferLength 0),
       WriteFile ''frame000000.jpg'' (cv\<lparr>canvasOps := drawFrame bar (replicate bufferLength 0)\<rparr>),
       OnProgress 20,
       GetByteFrequencyData (c + 100 / 3) (replicate bufferLength (if c + 100 / 3 < 50 then 0 else 255)),
       WriteFile ''frame000001.jpg''
         (cv\<lparr>canvasOps := drawFrame bar (replicate bufferLength (if c + 100 / 3 < 50 then 0 else 255))\<rparr>),
       OnProgress 55], Returns ())"
proof -
  have h: "roundToDouble (1 / 2) = 1 / 2"
    using roundToDouble_dyadic [of 1 "- 1"] by (simp add: power_int_minus)
  have p0: "frameProgress 0 2 = 20"
    by (simp add: frameProgress_def mathRound_def mulD_def divD_def roundToDouble_numeral)
  have p1: "frameProgress (Suc 0) 2 = 55"
    by (simp add: frameProgress_def mathRound_def mulD_def divD_def roundToDouble_numeral h)
  show ?thesis
    by (simp add: captureLoop_step captureLoop_done exampleWorld_simps frameKey_0 frameKey_1
        p0 p1 captureFps_def)
qed

lemma totalFrames_example: "totalFrames (1 / 16) = 2"
proof -
  have d: "roundToDouble (1 / 16) = 1 / 16"
    using roundToDouble_dyadic [of 1 "- 4"] by (simp add: power_int_minus)
  have r: "roundToDouble (15 / 8) = 15 / 8"
    using roundToDouble_dyadic [of 15 "- 3"] by (simp add: power_int_minus)
  show ?thesis by (simp add: totalFrames_def captureFps_def mulD_def roundToDouble_numeral d r)
qed

lemma totalFrames_10: "totalFrames 10 = 300"
  by (simp add: totalFrames_def captureFps_def mulD_def roundToDouble_numeral)


lemma totalFrames_140: "totalFrames (149 / 32) = 140"
proof -
  have d: "roundToDouble (149 / 32) = 149 / 32"
    using roundToDouble_dyadic [of 149 "- 5"] by (simp add: power_int_minus)
  have r: "roundToDouble (2235 / 16) = 2235 / 16"
    using roundToDouble_dyadic [of 2235 "- 4"] by (simp add: power_int_minus)
  show ?thesis by (simp add: totalFrames_def captureFps_def mulD_def roundToDouble_numeral d r)
qed

text \<open>
  Frame 47 of 140: the quotient rounds to \<open>6047690928183237 / 2 ^ 54\<close>, its product with
  70 to \<open>6614661952700415 / 2 ^ 48\<close>, which is \<open>23.499999999999996\<dots>\<close>, just below the
  \<open>23.5\<close> of the exact quotient and product.
\<close>

lemma divD_47_140: "divD 47 140 = 6047690928183237 / 2 ^ 54"
proof -
  have "roundToDouble (47 / 140) =
      of_int (rne ((47 / 140) / 2 powi (- 54))) * 2 powi (- 54)"
    by (rule roundToDouble_eval) (simp_all add: power_int_minus)
  also have "rne ((47 / 140) / 2 powi (- 54)) = 6047690928183237"
    by (simp add: rne_def Let_def power_int_minus)
  finally show ?thesis by (simp add: divD_def roundToDouble_numeral power_int_minus)
qed

lemma mulD_47_140: "mulD (6047690928183237 / 2 ^ 54) 70 = 6614661952700415 / 2 ^ 48"
proof -
  have "roundToDouble (6047690928183237 / 2 ^ 54 * 70) =
      of_int (rne ((6047690928183237 / 2 ^ 54 * 70) / 2 powi (- 48))) * 2 powi (- 48)"
    by (rule roundToDouble_eval) (simp_all add: power_int_minus)
  also have "rne ((6047690928183237 / 2 ^ 54 * 70) / 2 powi (- 48)) = 6614661952700415"
    by (simp add: rne_def Let_def power_int_minus)
  finally have p: "roundToDouble (6047690928183237 / 2 ^ 54 * 70) = 6614661952700415 / 2 ^ 48"
    by (simp add: power_int_minus)
  have q: "roundToDouble (6047690928183237 / 2 ^ 54) = 6047690928183237 / 2 ^ 54"
    using roundToDouble_dyadic [of 6047690928183237 "- 54"] by (simp add: power_int_minus)
  have s: "roundToDouble 70 = 70" by (simp add: roundToDouble_numeral)
  show ?thesis unfolding mulD_def q s by (rule p)
qed

lemma frameProgress_47_140: "frameProgress 47 140 = 43"
proof -
  have m: "mulD (divD (real 47) (real_of_int 140)) 70 = 6614661952700415 / 2 ^ 48"
    by (simp only: of_nat_numeral of_int_numeral divD_47_140 mulD_47_140)
  show ?thesis unfolding frameProgress_def mathRound_def m by simp
qed

lemma example_run:
  "exportVideo (exampleWorld (1 / 16) c) settings =
     ([OnProgress 0, OnProgress 10, OnProgress 20,
       GetByteFrequencyData 0 (replicate bufferLength 0),
       WriteFile ''frame000000.jpg''
         \<lparr>canvasWidth = 1280, canvasHeight = 720,
          canvasOps = drawFrame (drawBar settings) (replicate bufferLength 0)\<rparr>,
       OnProgress 20,
       GetByteFrequencyData (c + 100 / 3) (replicate bufferLength (if c + 100 / 3 < 50 then 0 else 255)),
       WriteFile ''frame000001.jpg''
         \<lparr>canvasWidth = 1280, canvasHeight = 720,
          canvasOps = drawFrame (drawBar settings)
            (replicate bufferLength (if c + 100 / 3 < 50 then 0 else 255))\<rparr>,
       OnProgress 55,
       Exec execArgs, OnProgress 90, ReadFile ''output.mp4'', OnProgress 100,
       OnComplete [] ''video/mp4''], Returns ())"
  by (simp add: exportVideo_shape exampleWorld_simps captureFrames_def totalFrames_example
      example_capture)

lemma example_run_es:
  "exportVideo_es (exampleWorld (1 / 16) c) settings (exampleExport f) =
     ([OnProgress 0, OnProgress 10, OnProgress 20,
       GetByteFrequencyData 0 (replicate bufferLength 0),
       WriteFile ''frame000000.jpg''
         \<lparr>canvasWidth = 1920, canvasHeight = 1080,
          canvasOps = drawFrame (drawBar_es settings) (replicate bufferLength 0)\<rparr>,
       OnProgress 20,
       GetByteFrequencyData (c + 100 / 3) (replicate bufferLength (if c + 100 / 3 < 50 then 0 else 255)),
       WriteFile ''frame000001.jpg''
         \<lparr>canvasWidth = 1920, canvasHeight = 1080,
          canvasOps = drawFrame (drawBar_es settings)
            (replicate bufferLength (if c + 100 / 3 < 50 then 0 else 255))\<rparr>,
       OnProgress 55,
       Exec (execArgs_es (exampleExport f)), OnProgress 90, ReadFile ''output.mp4'', OnProgress 100,
       OnComplete [] ''video/mp4''], Returns ())"
  by (simp add: exportVideo_es_shape exampleWorld_simps captureFrames_es_def totalFrames_example
      example_capture exampleExport_def outputExt_def)

subsection \<open>Reading the trace of a run\<close>

lemma progressOf_append: "progressOf (xs @ ys) = progressOf xs @ progressOf ys"
  by (induction xs rule: progressOf.induct) simp_all

lemma writtenKeys_append: "writtenKeys (xs @ ys) = writtenKeys xs @ writtenKeys ys"
  by (induction xs rule: writtenKeys.induct) simp_all

lemma writtenFrames_append: "writtenFrames (xs @ ys) = writtenFrames xs @ writtenFrames ys"
  by (induction xs rule: writtenFrames.induct) simp_all

lemma sampleTimes_append: "sampleTimes (xs @ ys) = sampleTimes xs @ sampleTimes ys"
  by (induction xs rule: sampleTimes.induct) simp_all

lemma spectra_append: "spectra (xs @ ys) = spectra xs @ spectra ys"
  by (induction xs rule: spectra.induct) simp_all

lemma execCalls_append: "execCalls (xs @ ys) = execCalls xs @ execCalls ys"
  by (induction xs rule: execCalls.induct) simp_all

lemmas reader_append = progressOf_append writtenKeys_append writtenFrames_append
  sampleTimes_append spectra_append execCalls_append

lemma exportVideo_samples:
  "sampleTimes (fst (exportVideo w settings)) =
     (if newAudioContext w \<and> imageOnload w \<and> arrayBuffer w \<and> decodeAudioData w \<noteq> None
      then sampleTimes (fst (captureFrames w settings
             \<lparr>canvasWidth = 1280, canvasHeight = 720, canvasOps = []\<rparr> (the (decodeAudioData w))))
      else [])"
  "spectra (fst (exportVideo w settings)) =
     (if newAudioContext w \<and> imageOnload w \<and> arrayBuffer w \<and> decodeAudioData w \<noteq> None
      then spectra (fst (captureFrames w settings
             \<lparr>canvasWidth = 1280, canvasHeight = 720, canvasOps = []\<rparr> (the (decodeAudioData w))))
      else [])"
  "writtenFrames (fst (exportVideo w settings)) =
     (if newAudioContext w \<and> imageOnload w \<and> arrayBuffer w \<and> decodeAudioData w \<noteq> None
      then writtenFrames (fst (captureFrames w settings
             \<lparr>canvasWidth = 1280, canvasHeight = 720, canvasOps = []\<rparr> (the (decodeAudioData w))))
      else [])"
  by (simp_all add: exportVideo_shape reader_append
      split: step.splits execResult.splits option.splits)

lemma sum_costs:
  "(\<Sum>j = 0..<k. frameCost w j + 1000 / captureFps) =
     (\<Sum>j<k. frameCost w j) + real k * (1000 / 30)"
  by (simp add: sum.distrib atLeast0LessThan captureFps_def)

lemma exportVideo_keys:
  "writtenKeys (fst (exportVideo w settings)) =
     (if newAudioContext w \<and> imageOnload w \<and> arrayBuffer w \<and> decodeAudioData w \<noteq> None
      then writtenKeys (fst (captureFrames w settings
             \<lparr>canvasWidth = 1280, canvasHeight = 720, canvasOps = []\<rparr> (the (decodeAudioData w))))
      else [])"
  by (simp add: exportVideo_shape reader_append
      split: step.splits execResult.splits option.splits)

lemma exportVideo_execCalls:
  "execCalls (fst (exportVideo w settings)) =
     (if newAudioContext w \<and> imageOnload w \<and> arrayBuffer w \<and> decodeAudioData w \<noteq> None \<and>
         snd (captureFrames w settings
             \<lparr>canvasWidth = 1280, canvasHeight = 720, canvasOps = []\<rparr> (the (decodeAudioData w))) =
           Returns ()
      then [execArgs] else [])"
  by (simp add: exportVideo_shape reader_append captureFrames_def loop_exec loop_status
      split: step.splits execResult.splits option.splits)

lemma exportVideo_es_keys:
  "writtenKeys (fst (exportVideo_es w settings exportSettings)) =
     (if newAudioContext w \<and> imageOnload w \<and> arrayBuffer w \<and> decodeAudioData w \<noteq> None
      then writtenKeys (fst (captureLoop w (drawBar_es settings)
             \<lparr>canvasWidth = if resolution exportSettings = R1080p then 1920 else 1280,
              canvasHeight = if resolution exportSettings = R1080p then 1080 else 720,
              canvasOps = []\<rparr> (totalFrames (the (decodeAudioData w))) 0 0))
      else [])"
  by (simp add: exportVideo_es_shape reader_append captureFrames_es_def
      split: step.splits execResult.splits option.splits)

lemma exportVideo_es_execCalls:
  "execCalls (fst (exportVideo_es w settings exportSettings)) =
     (if newAudioContext w \<and> imageOnload w \<and> arrayBuffer w \<and> decodeAudioData w \<noteq> None \<and>
         snd (captureLoop w (drawBar_es settings)
             \<lparr>canvasWidth = if resolution exportSettings = R1080p then 1920 else 1280,
              canvasHeight = if resolution exportSettings = R1080p then 1080 else 720,
              canvasOps = []\<rparr> (totalFrames (the (decodeAudioData w))) 0 0) = Returns ()
      then [execArgs_es exportSettings] else [])"
  by (simp add: exportVideo_es_shape reader_append captureFrames_es_def loop_exec loop_status
      split: step.splits execResult.splits option.splits)

lemma example_es_keys:
  "writtenKeys (fst (exportVideo_es (exampleWorld d c) settings exportSettings)) =
     map frameKey [0..<nat (totalFrames d)]"
  by (simp add: exportVideo_es_keys exampleWorld_simps loop_keys loop_returns)

lemma toString_60: "toString 60 = ''60''"
  by code_simp


lemma example_progress:
  "progressOf (fst (exportVideo (exampleWorld d c) settings)) =
     [0, 10, 20] @
     progressOf (fst (captureFrames (exampleWorld d c) settings
        \<lparr>canvasWidth = 1280, canvasHeight = 720, canvasOps = []\<rparr> d)) @ [90, 100]"
  by (simp add: exportVideo_shape exampleWorld_simps reader_append captureFrames_def loop_returns)

lemma frames_progress:
  "sorted (progressOf (fst (captureLoop w bar cv tf 0 clock))) \<and>
   (\<forall>p \<in> set (progressOf (fst (captureLoop w bar cv tf 0 clock))). 20 \<le> p \<and> p \<le> 90)"
proof (cases "0 \<le> tf")
  case True
  with loop_progress [of 0 tf w bar cv clock] show ?thesis by simp
next
  case False
  then show ?thesis by (simp add: captureLoop_done)
qed

subsection \<open>How a run ends\<close>

text \<open>
  A run stays pending exactly when the image never loads. A run that settles calls
  exactly one of \<open>onError\<close> and \<open>onComplete\<close>, and \<open>onComplete\<close> exactly when no call
  threw and the output file could be read; the exit code that \<open>exec\<close> resolves with is
  not looked at.
\<close>

lemma list_ex_callbacks_loop [simp]:
  "list_ex isOnError (fst (captureLoop w bar cv tf frame clock)) = False"
  "list_ex isOnComplete (fst (captureLoop w bar cv tf frame clock)) = False"
  using loop_callbacks [of w bar cv tf frame clock] by simp_all

lemma exportVideo_pending:
  "snd (exportVideo w settings) = NeverSettles \<longleftrightarrow> newAudioContext w \<and> \<not> imageOnload w"
  by (simp add: exportVideo_shape captureFrames_def loop_status
      split: step.splits execResult.splits option.splits)

lemma exportVideo_settled:
  "snd (exportVideo w settings) = Returns () \<Longrightarrow>
   list_ex isOnError (fst (exportVideo w settings)) \<noteq>
   list_ex isOnComplete (fst (exportVideo w settings))"
  by (simp add: exportVideo_shape captureFrames_def
      split: step.splits execResult.splits option.splits if_splits)

lemma exportVideo_complete:
  "list_ex isOnComplete (fst (exportVideo w settings)) \<longleftrightarrow>
     newAudioContext w \<and> imageOnload w \<and> arrayBuffer w \<and> decodeAudioData w \<noteq> None \<and>
     snd (captureFrames w settings \<lparr>canvasWidth = 1280, canvasHeight = 720, canvasOps = []\<rparr>
            (the (decodeAudioData w))) = Returns () \<and>
     exec w \<noteq> ExecRejects \<and> readFile w ''output.mp4'' \<noteq> None"
  by (auto simp add: exportVideo_shape captureFrames_def
      split: step.splits execResult.splits option.splits if_splits)

subsection \<open>Bar geometry and frame rates\<close>

lemma barWidth_identity:
  "real bufferLength * barWidth settings + (real bufferLength - 1) * barSpacing settings = totalWidth"
  by (simp add: barWidth_def bufferLength_def Let_def field_simps)

lemma last_bar_edge:
  "real (bufferLength - 1) * barWidth settings + barWidth settings =
     totalWidth - 127 * barSpacing settings"
  by (simp add: barWidth_def bufferLength_def Let_def totalWidth_def field_simps)

lemma drawFrame_first:
  "drawFrame bar dataArray =
     ClearRect 0 0 1280 720 # DrawImage 0 0 1280 720 # bar dataArray 0 @
     concat (map (bar dataArray) [1..<bufferLength])"
proof -
  have "[0..<bufferLength] = 0 # [1..<bufferLength]"
    by (simp add: bufferLength_def upt_conv_Cons)
  then show ?thesis by (simp add: drawFrame_def)
qed


section \<open>The claims\<close>

subsection \<open>C1: what the spectrum of a frame depends on\<close>

text \<open>
  C1, as stated, fails. Two runs on the same track and the same settings, the first with
  iterations that cost nothing and the second with iterations that cost 50 milliseconds,
  read different spectra for frame 1: the analyser is read at playback time 33.3 ms in
  the first run, when the track is still silent, and at 83.3 ms in the second.
\<close>
theorem C1_counterexample:
  "spectra (fst (exportVideo (exampleWorld (1 / 16) 0) defaultSettings)) \<noteq>
   spectra (fst (exportVideo (exampleWorld (1 / 16) 50) defaultSettings))"
  by (simp add: example_run bufferLength_def)

text \<open>
  C1, amended. The spectrum used to render frame \<open>k\<close> is what the live analyser
  returns when the loop reaches frame \<open>k\<close>, that is at the playback time (in
  milliseconds) \<open>(\<Sum>j<k. frameCost w j) + k * 1000 / 30\<close>: the wall-clock cost of the \<open>k\<close>
  iterations before it plus their timer delays. The frame written under key \<open>k\<close> is
  drawn from exactly that spectrum.
\<close>
theorem C1_sampled_at_wall_clock:
  assumes "k < length (sampleTimes (fst (exportVideo w settings)))"
  shows "sampleTimes (fst (exportVideo w settings)) ! k =
           (\<Sum>j<k. frameCost w j) + real k * (1000 / 30) \<and>
         spectra (fst (exportVideo w settings)) ! k =
           getByteFrequencyData w (sampleTimes (fst (exportVideo w settings)) ! k) \<and>
         canvasOps (writtenFrames (fst (exportVideo w settings)) ! k) =
           drawFrame (drawBar settings) (spectra (fst (exportVideo w settings)) ! k)"
proof -
  let ?cv = "\<lparr>canvasWidth = 1280, canvasHeight = 720, canvasOps = []\<rparr>"
  let ?loop = "captureLoop w (drawBar settings) ?cv (totalFrames (the (decodeAudioData w))) 0 0"
  from assms have ok: "newAudioContext w \<and> imageOnload w \<and> arrayBuffer w \<and> decodeAudioData w \<noteq> None"
    by (simp add: exportVideo_samples split: if_splits)
  then have eqs: "sampleTimes (fst (exportVideo w settings)) = sampleTimes (fst ?loop)"
    "spectra (fst (exportVideo w settings)) = spectra (fst ?loop)"
    "writtenFrames (fst (exportVideo w settings)) = writtenFrames (fst ?loop)"
    by (simp_all add: exportVideo_samples captureFrames_def)
  from assms eqs have k: "k < length (sampleTimes (fst ?loop))" by simp
  have t: "sampleTimes (fst ?loop) ! k = (\<Sum>j<k. frameCost w j) + real k * (1000 / 30)"
    using loop_sampleTimes [OF k] by (simp add: sum_costs)
  from loop_spectra [of w "drawBar settings" ?cv "totalFrames (the (decodeAudioData w))" 0 0] k
  have "spectra (fst ?loop) ! k = getByteFrequencyData w (sampleTimes (fst ?loop) ! k)"
    "writtenFrames (fst ?loop) ! k = ?cv\<lparr>canvasOps := drawFrame (drawBar settings) (spectra (fst ?loop) ! k)\<rparr>"
    by blast+
  with t show ?thesis by (simp add: eqs)
qed

text \<open>
  Witness for C1: with two frames and iterations that cost 50 ms, frame 1 is sampled at
  83.3 ms, where every bin is at full scale.
\<close>
theorem C1_sampled_at_wall_clock_witness:
  "(1::nat) < length (sampleTimes (fst (exportVideo (exampleWorld (1 / 16) 50) defaultSettings))) \<and>
   sampleTimes (fst (exportVideo (exampleWorld (1 / 16) 50) defaultSettings)) ! 1 = 50 + 1000 / 30 \<and>
   spectra (fst (exportVideo (exampleWorld (1 / 16) 50) defaultSettings)) ! 1 = replicate bufferLength 255"
proof -
  have h: "(1::nat) < length (sampleTimes (fst (exportVideo (exampleWorld (1 / 16) 50) defaultSettings)))"
    by (simp add: example_run)
  from C1_sampled_at_wall_clock [OF h] h show ?thesis
    by (simp add: exampleWorld_simps)
qed

subsection \<open>C2: what the encoder is given\<close>

text \<open>
  C2 says that the encoder is invoked with the frame sequence together with the original,
  undecoded audio asset. The exporter names \<^verbatim>\<open>input.mp3\<close> as the second input of
  \<open>exec\<close>, but in no run does it write a file of that name: the only files it writes to
  the encoder's file system are the frames. The run of the example world writes
  \<^verbatim>\<open>frame000000.jpg\<close> and \<^verbatim>\<open>frame000001.jpg\<close> and then calls \<open>exec\<close>.
\<close>

theorem C2_audio_never_written:
  "''input.mp3'' \<notin> set (writtenKeys (fst (exportVideo w settings))) \<and>
   (execCalls (fst (exportVideo w settings)) = [] \<or>
    execCalls (fst (exportVideo w settings)) = [execArgs]) \<and>
   execArgs ! 5 = ''input.mp3'' \<and>
   writtenKeys (fst (exportVideo (exampleWorld (1 / 16) 0) defaultSettings)) =
     [''frame000000.jpg'', ''frame000001.jpg''] \<and>
   execCalls (fst (exportVideo (exampleWorld (1 / 16) 0) defaultSettings)) = [execArgs]"
  by (simp add: exportVideo_keys exportVideo_execCalls captureFrames_def loop_keys_frames
      execArgs_def example_run)

subsection \<open>C3: the number of frames\<close>

text \<open>
  C3 says that the number of frames is \<open>\<lceil>d * f\<rceil>\<close> for the target frame rate \<open>f\<close>. In the
  exporter with export settings the capture loop uses its own constant 30: for a track
  of 10 seconds and \<open>exportSettings.fps = 60\<close> it writes 300 frames, not 600, and then
  asks the encoder for a frame rate of 60.
\<close>

theorem C3_frame_count_ignores_fps:
  "length (writtenKeys (fst (exportVideo_es (exampleWorld 10 0) defaultSettings (exampleExport 60)))) = 300 \<and>
   execCalls (fst (exportVideo_es (exampleWorld 10 0) defaultSettings (exampleExport 60))) =
     [execArgs_es (exampleExport 60)] \<and>
   take 2 (execArgs_es (exampleExport 60)) = [''-framerate'', ''60''] \<and>
   \<lceil>(10 :: real) * real (fps (exampleExport 60))\<rceil> = 600"
  by (simp add: example_es_keys exportVideo_es_execCalls exampleWorld_simps loop_returns
      totalFrames_10 execArgs_es_def exampleExport_def toString_60)

subsection \<open>C4: the order of the frame keys\<close>



subsection \<open>C5: the width of the row of bars\<close>

text \<open>
  C5 says that the bar width is chosen so that the row of bars, with its spacing, spans
  the full width. The width is computed so (lemma \<open>barWidth_identity\<close>), but every bar
  is drawn at \<open>i * barWidth\<close>: the spacing is never added, and the row ends at
  \<open>1280 - 127 * barSpacing\<close> (lemma \<open>last_bar_edge\<close>). With the default settings, whose
  spacing is 1, the last bar starts at \<open>127 * 1153 / 128\<close> and ends at 1153, which leaves
  127 pixels of the 1280 uncovered.
\<close>

theorem C5_bars_stop_short:
  "barWidth defaultSettings = 1153 / 128 \<and>
   drawShape defaultSettings (bufferLength - 1) y h =
     [RoundRect (127 * (1153 / 128)) y (1153 / 128) h [4, 4, 0, 0]] \<and>
   127 * (1153 / 128) + 1153 / 128 = (1153 :: real) \<and>
   (1153 :: real) < totalWidth"
  by (simp add: drawShape_def barWidth_def bufferLength_def totalWidth_def defaultSettings_def)

subsection \<open>C6: the height of a bar\<close>

text \<open>
  C6 says that the cap on the bar height is 30% of the height of the frame buffer, also
  at 1920 by 1080. The exporter with export settings sizes its canvas to 1920 by 1080
  and still draws with \<open>maxBarHeight = 720 * 0.3 = 216\<close>: in the second frame of the
  example run, where every bin is 255 and the height scale is 1, the first bar is 216
  pixels high and hangs from \<open>y = 504\<close>, in a canvas 1080 pixels high, 30% of which
  is 324.
\<close>

theorem C6_max_bar_height_fixed:
  "writtenFrames (fst (exportVideo_es (exampleWorld (1 / 16) 50)
       (defaultSettings\<lparr>barHeight := 1\<rparr>) (exampleExport 30))) ! 1 =
     \<lparr>canvasWidth = 1920, canvasHeight = 1080,
      canvasOps = drawFrame (drawBar_es (defaultSettings\<lparr>barHeight := 1\<rparr>))
                    (replicate bufferLength 255)\<rparr> \<and>
   take 5 (drawFrame (drawBar_es (defaultSettings\<lparr>barHeight := 1\<rparr>)) (replicate bufferLength 255)) =
     [ClearRect 0 0 1280 720, DrawImage 0 0 1280 720, ShadowBlur 0, FillStyle (Rgb 255 0 0),
      RoundRect 0 504 (1153 / 128) 216 [4, 4, 0, 0]] \<and>
   maxBarHeight = 216 \<and> (0.3 :: real) * 1080 = 324"
proof -
  have bar: "drawBar_es (defaultSettings\<lparr>barHeight := 1\<rparr>) (replicate bufferLength 255) 0 =
      [ShadowBlur 0, FillStyle (Rgb 255 0 0), RoundRect 0 504 (1153 / 128) 216 [4, 4, 0, 0]]"
    by (simp add: drawBar_es_def barHeightPx_def barY_def getColorForScheme_def drawShape_def
        barWidth_def maxBarHeight_def totalWidth_def defaultSettings_def bufferLength_def Let_def)
  show ?thesis
    by (simp add: example_run_es drawFrame_first bar maxBarHeight_def)
qed

subsection \<open>C7: the colour of a bar\<close>




subsection \<open>C8: the progress reports\<close>

text \<open>
  C8, as stated, fails in its formula. On a track of 4.65625 seconds, which has 140
  frames, the report after frame 47 is 43: the quotient \<open>47 / 140\<close> and its product with
  70 are rounded to doubles, the product comes out just below 23.5, and \<^verbatim>\<open>Math.round\<close>
  gives 23. The exact \<open>20 + round (70 * 47 / 140)\<close> is 44. The report is the 51st of the
  run, after the three reports of the setup.
\<close>

theorem C8_counterexample:
  "totalFrames (149 / 32) = 140 \<and>
   progressOf (fst (exportVideo (exampleWorld (149 / 32) 0) defaultSettings)) ! (3 + 47) = 43 \<and>
   20 + round (70 * real (47::nat) / real_of_int (totalFrames (149 / 32))) = (44::int)"
proof -
  let ?cv = "\<lparr>canvasWidth = 1280, canvasHeight = 720, canvasOps = []\<rparr>"
  let ?loop = "captureLoop (exampleWorld (149 / 32) 0) (drawBar defaultSettings) ?cv 140 0 0"
  have ret: "snd ?loop = Returns ()" by (simp add: loop_returns exampleWorld_simps)
  from loop_progress_length [OF ret] have len: "length (progressOf (fst ?loop)) = 140" by simp
  then have "47 < length (progressOf (fst ?loop))" by simp
  from loop_progress_nth [OF this] have "progressOf (fst ?loop) ! 47 = 43"
    by (simp add: frameProgress_47_140)
  with len have "progressOf (fst (exportVideo (exampleWorld (149 / 32) 0) defaultSettings)) ! (3 + 47) = 43"
    by (simp add: example_progress captureFrames_def totalFrames_140 nth_append)
  moreover have "20 + round (70 * real (47::nat) / real_of_int 140) = (44::int)"
    by (simp add: round_def)
  ultimately show ?thesis by (simp add: totalFrames_140)
qed

text \<open>
  C8, amended. In every run, whatever fails and wherever, the progress values are
  reported in non-decreasing order and lie between 0 and 100; and the \<open>k\<close>-th report of
  the capture loop, the one made after frame \<open>k\<close> has been written, is
  \<open>20 + Math.round ((k / totalFrames) * 70)\<close> with the quotient and the product each
  rounded to a double.
\<close>

theorem C8_progress_monotone:
  "sorted (progressOf (fst (exportVideo w settings))) \<and>
   (\<forall>p \<in> set (progressOf (fst (exportVideo w settings))). 0 \<le> p \<and> p \<le> 100) \<and>
   (\<forall>k < length (progressOf (fst (captureFrames w settings cv d))).
      progressOf (fst (captureFrames w settings cv d)) ! k =
        20 + mathRound (mulD (divD (real k) (real_of_int (totalFrames d))) 70))"
proof -
  let ?cv = "\<lparr>canvasWidth = 1280, canvasHeight = 720, canvasOps = []\<rparr>"
  let ?ps = "progressOf (fst (captureLoop w (drawBar settings) ?cv
               (totalFrames (the (decodeAudioData w))) 0 0))"
  from frames_progress [of w "drawBar settings" ?cv "totalFrames (the (decodeAudioData w))" 0]
  have s: "sorted ?ps" and b: "\<forall>p \<in> set ?ps. 20 \<le> p \<and> p \<le> 90" by blast+
  have run: "sorted (progressOf (fst (exportVideo w settings))) \<and>
    (\<forall>p \<in> set (progressOf (fst (exportVideo w settings))). 0 \<le> p \<and> p \<le> 100)"
    using s b
    by (auto simp add: exportVideo_shape reader_append captureFrames_def sorted_append
        split: step.splits execResult.splits option.splits)
  have "\<forall>k < length (progressOf (fst (captureFrames w settings cv d))).
      progressOf (fst (captureFrames w settings cv d)) ! k =
        20 + mathRound (mulD (divD (real k) (real_of_int (totalFrames d))) 70)"
    by (simp add: captureFrames_def loop_progress_nth frameProgress_def)
  with run show ?thesis by blast
qed

text \<open>
  C8 at the example world: the reports are 0, 10, 20, then 20 and 55 for the two frames,
  then 90 and 100.
\<close>

theorem C8_progress_monotone_witness:
  "progressOf (fst (exportVideo (exampleWorld (1 / 16) 0) defaultSettings)) =
     [0, 10, 20, 20, 55, 90, 100] \<and>
   sorted (progressOf (fst (exportVideo (exampleWorld (1 / 16) 0) defaultSettings))) \<and>
   0 \<le> Min (set (progressOf (fst (exportVideo (exampleWorld (1 / 16) 0) defaultSettings)))) \<and>
   Max (set (progressOf (fst (exportVideo (exampleWorld (1 / 16) 0) defaultSettings)))) \<le> 100 \<and>
   (1::nat) < length (progressOf (fst (captureFrames (exampleWorld (1 / 16) 0) defaultSettings
       \<lparr>canvasWidth = 1280, canvasHeight = 720, canvasOps = []\<rparr> (1 / 16)))) \<and>
   progressOf (fst (captureFrames (exampleWorld (1 / 16) 0) defaultSettings
       \<lparr>canvasWidth = 1280, canvasHeight = 720, canvasOps = []\<rparr> (1 / 16))) ! 1 =
     20 + mathRound (mulD (divD (real (1::nat)) (real_of_int (totalFrames (1 / 16)))) 70)"
proof -
  have p: "progressOf (fst (exportVideo (exampleWorld (1 / 16) 0) defaultSettings)) =
     [0, 10, 20, 20, 55, 90, 100]"
    by (simp add: example_run)
  have l: "(1::nat) < length (progressOf (fst (captureFrames (exampleWorld (1 / 16) 0) defaultSettings
       \<lparr>canvasWidth = 1280, canvasHeight = 720, canvasOps = []\<rparr> (1 / 16))))"
    by (simp add: captureFrames_def totalFrames_example example_capture)
  from C8_progress_monotone [of "exampleWorld (1 / 16) 0" defaultSettings
      "\<lparr>canvasWidth = 1280, canvasHeight = 720, canvasOps = []\<rparr>" "1 / 16"] p l
  show ?thesis by auto
qed

subsection \<open>C9: what happens when a step fails\<close>

text \<open>
  C9 says that when a step fails, setup included, the error callback is invoked. When
  the image cannot be loaded, \<open>setupCanvas\<close> never returns: the run reports the progress
  0 and then stays pending, and neither \<open>onError\<close> nor \<open>onComplete\<close> is ever called.
\<close>

theorem C9_image_never_loads:
  "exportVideo ((exampleWorld 10 0)\<lparr>imageOnload := False\<rparr>) defaultSettings =
     ([OnProgress 0], NeverSettles)"
  by (simp add: exportVideo_shape exampleWorld_def)

subsection \<open>C10: the capture rate and the encoder's frame rate\<close>




end
